theory Spec2Isabelle
  imports Complex_Main
begin

section \<open>Strings and the regular expression of the plugin\<close>

text \<open>
  The plugin (\<^verbatim>\<open>src/index.mjs\<close>) is a Vite plugin that resolves imports of
  \<^verbatim>\<open>.cljs\<close> files to compiled \<^verbatim>\<open>.jsx\<close> files in an output directory,
  compiles them on load when the source is newer than the last compilation, and forwards
  file changes to the module graph. Its state is two JavaScript objects used as
  dictionaries, \<^verbatim>\<open>srcFileMap\<close> and \<^verbatim>\<open>compiledFileMap\<close>, captured by
  the hooks' closures.

  JavaScript strings are modelled as \<^typ>\<open>string\<close>. The only regular expression of the
  source is \<^verbatim>\<open>/\.cljs$/\<close>, without flags: it matches exactly the strings that end
  in \<^verbatim>\<open>.cljs\<close>.
\<close>

definition endsWith :: "string \<Rightarrow> string \<Rightarrow> bool" where
  "endsWith suf s = (take (length suf) (rev s) = rev suf)"

definition startsWith :: "string \<Rightarrow> string \<Rightarrow> bool" where
  "startsWith pre s = (take (length pre) s = pre)"

text \<open>\<^verbatim>\<open>/\.cljs$/.test(id)\<close>\<close>

definition test_cljs :: "string \<Rightarrow> bool" where
  "test_cljs s = endsWith ''.cljs'' s"

text \<open>\<^verbatim>\<open>s.replace(/\.cljs$/, ".jsx")\<close>\<close>

definition replace_cljs :: "string \<Rightarrow> string" where
  "replace_cljs s = (if test_cljs s then take (length s - 5) s @ ''.jsx'' else s)"

text \<open>A string is truthy in a JavaScript condition iff it is not empty.\<close>

definition truthy :: "string \<Rightarrow> bool" where
  "truthy s = (s \<noteq> [])"

section \<open>The path module of Node (POSIX)\<close>

text \<open>
  The source imports \<^verbatim>\<open>path\<close> and uses \<^verbatim>\<open>extname\<close>, \<^verbatim>\<open>dirname\<close>,
  \<^verbatim>\<open>resolve\<close> and \<^verbatim>\<open>relative\<close>. They belong to Node, not to the plugin; they
  are modelled here after Node's POSIX implementation: \<^verbatim>\<open>dirname\<close> and
  \<^verbatim>\<open>extname\<close> character by character, \<^verbatim>\<open>resolve\<close> and \<^verbatim>\<open>relative\<close> on
  the segments between slashes. The working directory \<^verbatim>\<open>process.cwd()\<close> is a
  parameter; \<^verbatim>\<open>relative\<close> is modelled for an absolute working directory, which is
  what the operating system returns.
\<close>

definition slash :: char where
  "slash = CHR ''/''"

definition dot :: char where
  "dot = CHR ''.''"

definition dirname :: "string \<Rightarrow> string" where
  "dirname path =
     (if path = [] then ''.''
      else
        let hasRoot = (hd path = slash);
            r = dropWhile (\<lambda>c. c = slash) (rev (tl path));
            r' = dropWhile (\<lambda>c. c \<noteq> slash) r
        in if r' = [] then (if hasRoot then ''/'' else ''.'')
           else if hasRoot \<and> tl r' = [] then ''//''
           else hd path # rev (tl r'))"

text \<open>
  \<^verbatim>\<open>extname\<close>: the last path component, after trailing slashes are dropped, from its
  last dot on; empty when the component has no dot, when its only dot is its first
  character, or when the component is \<^verbatim>\<open>..\<close>.
\<close>

definition extname :: "string \<Rightarrow> string" where
  "extname path =
     (let base = takeWhile (\<lambda>c. c \<noteq> slash) (dropWhile (\<lambda>c. c = slash) (rev path));
          ext = takeWhile (\<lambda>c. c \<noteq> dot) base;
          front = drop (Suc (length ext)) base
      in if dot \<notin> set base \<or> front = [] \<or> base = ''..'' then []
         else rev (ext @ [dot]))"

fun split_slash :: "string \<Rightarrow> string list" where
  "split_slash [] = [[]]"
| "split_slash (c # cs) =
     (if c = slash then [] # split_slash cs
      else (case split_slash cs of
              [] \<Rightarrow> [[c]]
            | seg # segs \<Rightarrow> (c # seg) # segs))"

fun join_slash :: "string list \<Rightarrow> string" where
  "join_slash [] = []"
| "join_slash [seg] = seg"
| "join_slash (seg # segs) = seg @ slash # join_slash segs"

text \<open>
  \<^verbatim>\<open>normalizeString\<close>: empty segments and \<^verbatim>\<open>.\<close> are dropped, \<^verbatim>\<open>..\<close>
  removes the segment before it; above the start it is kept iff \<open>allowAboveRoot\<close>.
  The accumulator holds the result so far, last segment first.
\<close>

fun normalizeSegments :: "bool \<Rightarrow> string list \<Rightarrow> string list \<Rightarrow> string list" where
  "normalizeSegments allowAboveRoot res [] = rev res"
| "normalizeSegments allowAboveRoot res (seg # segs) =
     (if seg = [] \<or> seg = ''.'' then normalizeSegments allowAboveRoot res segs
      else if seg = ''..'' then
        (if res \<noteq> [] \<and> hd res \<noteq> ''..'' then normalizeSegments allowAboveRoot (tl res) segs
         else if allowAboveRoot then normalizeSegments allowAboveRoot (''..'' # res) segs
         else normalizeSegments allowAboveRoot res segs)
      else normalizeSegments allowAboveRoot (seg # res) segs)"

text \<open>
  The loop of \<^verbatim>\<open>resolve\<close> runs over the arguments from the right, then the working
  directory, skips empty strings and stops after the first absolute path. The argument
  list is given here last argument first.
\<close>

fun resolveJoin :: "string list \<Rightarrow> string" where
  "resolveJoin [] = []"
| "resolveJoin (p # ps) =
     (if p = [] then resolveJoin ps
      else if hd p = slash then p @ [slash]
      else resolveJoin ps @ p @ [slash])"

definition path_resolve :: "string \<Rightarrow> string list \<Rightarrow> string" where
  "path_resolve cwd args =
     (let resolvedPath = resolveJoin (rev (cwd # args));
          resolvedAbsolute = (resolvedPath \<noteq> [] \<and> hd resolvedPath = slash);
          segs = normalizeSegments (\<not> resolvedAbsolute) [] (split_slash resolvedPath)
      in if resolvedAbsolute then slash # join_slash segs
         else if segs = [] then ''.'' else join_slash segs)"

definition segments :: "string \<Rightarrow> string list" where
  "segments p = filter (\<lambda>seg. seg \<noteq> []) (split_slash p)"

fun commonPrefix :: "string list \<Rightarrow> string list \<Rightarrow> nat" where
  "commonPrefix (x # xs) (y # ys) = (if x = y then Suc (commonPrefix xs ys) else 0)"
| "commonPrefix _ _ = 0"

definition path_relative :: "string \<Rightarrow> string \<Rightarrow> string \<Rightarrow> string" where
  "path_relative cwd from to =
     (if from = to then []
      else
        let from' = path_resolve cwd [from];
            to' = path_resolve cwd [to]
        in if from' = to' then []
           else
             let fs = segments from';
                 ts = segments to';
                 n = commonPrefix fs ts
             in join_slash (replicate (length fs - n) ''..'' @ drop n ts))"

section \<open>The environment: file system, compiler, console\<close>

text \<open>
  The file system is a map from paths to nodes; a path is the string the plugin passes to
  \<^verbatim>\<open>fs\<close>. \<^verbatim>\<open>mtimeMs\<close> is a JavaScript number; only its order and its comparison
  with \<open>0\<close> matter to the plugin, so it is a rational. Every call of \<^verbatim>\<open>fs\<close> on
  a path and every call of the compiler is recorded in \<open>effects\<close>, whether it succeeds
  or not.
\<close>

datatype node = is_File: File (content: string) (mtimeMs: rat) | Directory (mtimeMs: rat)

datatype error = TypeError | ENOENT | EISDIR | EEXIST | ENOTDIR | CompileFailure string

datatype effect =
    StatSync string
  | ReadFileSync string
  | MkdirSync string
  | WriteFileSync string string
  | CompileString string string

text \<open>What a hook returns when it does not throw.\<close>

datatype 'a hook_result = Null | Undefined | Value 'a

text \<open>
  The variables of \<^verbatim>\<open>viteSquint\<close> that the hooks close over (\<open>outputDir\<close>,
  \<open>projectRoot\<close>, \<open>srcFileMap\<close>, \<open>compiledFileMap\<close>, and \<open>debug\<close> for the
  logger that \<^verbatim>\<open>createLogger\<close> chose), and the environment of the process. The two
  dictionaries are maps from strings and hold the keys that the plugin stored. Both are
  plain objects, so a lookup of a key that was not stored finds the property of that name
  that the object inherits from \<^verbatim>\<open>Object.prototype\<close>, if there is one
  (\<open>objectPrototypeNames\<close> below): \<^verbatim>\<open>load\<close> is called with any module id
  and is modelled with these names. \<^verbatim>\<open>resolveId\<close> and
  \<^verbatim>\<open>handleHotUpdate\<close> look up the path of the importing file and of the changed
  file, which are taken not to be such names.
  \<open>srcFileMap\<close> holds the pairs \<^verbatim>\<open>[compiledFile, srcFileModTime]\<close>.
\<close>

record session =
  outputDir :: string
  projectRoot :: "string option"
  srcFileMap :: "string \<rightharpoonup> string \<times> rat"
  compiledFileMap :: "string \<rightharpoonup> string"
  debug :: bool
  console :: "string list list"
  cwd :: string
  files :: "string \<rightharpoonup> node"
  effects :: "effect list"

text \<open>\<^verbatim>\<open>createLogger\<close>: \<^verbatim>\<open>console.log\<close> when \<^verbatim>\<open>process.env.DEBUG\<close> is set,
  otherwise a function that does nothing.\<close>

definition log :: "string list \<Rightarrow> session \<Rightarrow> session" where
  "log args s = (if debug s then s\<lparr>console := console s @ [args]\<rparr> else s)"

definition perform :: "effect \<Rightarrow> session \<Rightarrow> session" where
  "perform e s = s\<lparr>effects := effects s @ [e]\<rparr>"

text \<open>\<^verbatim>\<open>fs.statSync(path)\<close>; the node stands for the \<^verbatim>\<open>Stats\<close> object.\<close>

definition statSync :: "string \<Rightarrow> session \<Rightarrow> (error + node) \<times> session" where
  "statSync p s =
     ((case files s p of None \<Rightarrow> Inl ENOENT | Some stats \<Rightarrow> Inr stats),
      perform (StatSync p) s)"

definition readFileSync :: "string \<Rightarrow> session \<Rightarrow> (error + string) \<times> session" where
  "readFileSync p s =
     ((case files s p of
         None \<Rightarrow> Inl ENOENT
       | Some (Directory _) \<Rightarrow> Inl EISDIR
       | Some (File code _) \<Rightarrow> Inr code),
      perform (ReadFileSync p) s)"

text \<open>
  \<^verbatim>\<open>fs.mkdirSync(dir, { recursive: true })\<close>: every missing directory on the way to
  \<open>dir\<close> is created, an existing directory is left alone, and a file in the way is an
  error. The chain of parents ends where \<^verbatim>\<open>dirname\<close> returns its argument
  (\<^verbatim>\<open>/\<close> or \<^verbatim>\<open>.\<close>), which exists.
\<close>

function mkdirs :: "rat \<Rightarrow> string \<Rightarrow> (string \<rightharpoonup> node) \<Rightarrow> error + (string \<rightharpoonup> node)" where
  "mkdirs now p fs =
     (case fs p of
        Some (Directory _) \<Rightarrow> Inr fs
      | Some (File _ _) \<Rightarrow> Inl EEXIST
      | None \<Rightarrow>
          if dirname p = p then Inr fs
          else (case mkdirs now (dirname p) fs of
                  Inl e \<Rightarrow> Inl ENOTDIR
                | Inr fs' \<Rightarrow> Inr (fs'(p \<mapsto> Directory now))))"
  by pat_completeness auto

definition mkdirSync :: "string \<Rightarrow> rat \<Rightarrow> session \<Rightarrow> (error + unit) \<times> session" where
  "mkdirSync dir now s =
     (case mkdirs now dir (files s) of
        Inl e \<Rightarrow> (Inl e, perform (MkdirSync dir) s)
      | Inr fs' \<Rightarrow> (Inr (), (perform (MkdirSync dir) s)\<lparr>files := fs'\<rparr>))"

text \<open>
  \<^verbatim>\<open>fs.writeFileSync(path, data)\<close> at time \<open>now\<close>: the path must not be empty
  and must not be a directory (\<^verbatim>\<open>/\<close> and \<^verbatim>\<open>.\<close> are directories), and its parent
  must be a directory; the file then holds \<open>data\<close>.
\<close>

definition writeFileSync :: "string \<Rightarrow> string \<Rightarrow> rat \<Rightarrow> session \<Rightarrow> (error + unit) \<times> session" where
  "writeFileSync p data now s =
     (let s' = perform (WriteFileSync p data) s;
          parent = dirname p
      in if p = [] then (Inl ENOENT, s')
         else if parent = p then (Inl EISDIR, s')
         else case files s p of
           Some (Directory _) \<Rightarrow> (Inl EISDIR, s')
         | _ \<Rightarrow>
            (case files s parent of
               Some (File _ _) \<Rightarrow> (Inl ENOTDIR, s')
             | Some (Directory _) \<Rightarrow> (Inr (), s'\<lparr>files := (files s)(p \<mapsto> File data now)\<rparr>)
             | None \<Rightarrow>
                 if dirname parent = parent
                 then (Inr (), s'\<lparr>files := (files s)(p \<mapsto> File data now)\<rparr>)
                 else (Inl ENOENT, s')))"

section \<open>The plugin\<close>

subsection \<open>Helpers (lines 5 to 20)\<close>

definition hasExtension :: "string \<Rightarrow> bool" where
  "hasExtension filePath = (length (extname filePath) > 0)"

text \<open>
  \<^verbatim>\<open>isFile\<close> calls \<^verbatim>\<open>statSync\<close> with \<^verbatim>\<open>throwIfNoEntry: false\<close> and returns
  \<^verbatim>\<open>stats?.isFile()\<close>: \<^verbatim>\<open>undefined\<close> (here \<open>None\<close>) when there is no entry.
\<close>

definition isFile :: "string \<Rightarrow> session \<Rightarrow> bool option \<times> session" where
  "isFile filePath s =
     (let (r, s') = statSync filePath s
      in ((case r of Inl _ \<Rightarrow> None | Inr stats \<Rightarrow> Some (is_File stats)), s'))"

definition isLibraryImport :: "string \<Rightarrow> bool" where
  "isLibraryImport importPath = (\<not> (startsWith ''.'' importPath \<or> startsWith ''/'' importPath))"

subsection \<open>Construction and \<^verbatim>\<open>configResolved\<close> (lines 29 to 41)\<close>

text \<open>
  \<^verbatim>\<open>opts.outputDir || "squint_out"\<close>: an absent or empty option gives the default. The
  last three arguments are the environment the process starts in.
\<close>

definition viteSquint :: "string option \<Rightarrow> bool \<Rightarrow> string \<Rightarrow> (string \<rightharpoonup> node) \<Rightarrow> session" where
  "viteSquint optsOutputDir envDebug cwd0 files0 =
     \<lparr>outputDir = (case optsOutputDir of
                     None \<Rightarrow> ''squint_out''
                   | Some d \<Rightarrow> if truthy d then d else ''squint_out''),
      projectRoot = None,
      srcFileMap = Map.empty,
      compiledFileMap = Map.empty,
      debug = envDebug,
      console = [],
      cwd = cwd0,
      files = files0,
      effects = []\<rparr>"

definition configResolved :: "string \<Rightarrow> session \<Rightarrow> session" where
  "configResolved rootDir s = s\<lparr>projectRoot := Some rootDir\<rparr>"

subsection \<open>\<^verbatim>\<open>resolveId\<close> (lines 42 to 80)\<close>

record resolveOptions =
  scan :: bool

text \<open>
  \<^verbatim>\<open>importer\<close> is a string or \<^verbatim>\<open>undefined\<close>. As a property key,
  \<^verbatim>\<open>undefined\<close> is the string \<^verbatim>\<open>"undefined"\<close>.
\<close>

definition propertyKey :: "string option \<Rightarrow> string" where
  "propertyKey importer = (case importer of None \<Rightarrow> ''undefined'' | Some i \<Rightarrow> i)"

text \<open>
  \<^verbatim>\<open>dirname(srcFile || importer)\<close>, lines 49 and 60: the source file when the
  importer is a compiled file (and the stored name is truthy), the importer otherwise;
  \<^verbatim>\<open>dirname\<close> throws a \<^verbatim>\<open>TypeError\<close> when its argument is not a string.
\<close>

definition importerDir :: "string option \<Rightarrow> string option \<Rightarrow> error + string" where
  "importerDir srcFile importer =
     (case (if srcFile \<noteq> None \<and> truthy (the srcFile) then srcFile else importer) of
        None \<Rightarrow> Inl TypeError
      | Some p \<Rightarrow> Inr (dirname p))"

text \<open>Lines 51 to 57: an import without extension is tried as a \<^verbatim>\<open>.cljs\<close> file.\<close>

definition probeCljs :: "string \<Rightarrow> string \<Rightarrow> session \<Rightarrow> string \<times> session" where
  "probeCljs absPath ident s =
     (if \<not> hasExtension ident then
        let resolveCljsFile = absPath @ ''.cljs'';
            (found, s') = isFile resolveCljsFile s
        in if found = Some True
           then (resolveCljsFile, log [''resolving import as cljs file'', ident] s')
           else (ident, s')
      else (ident, s))"

text \<open>
  Lines 60 to 64. \<^verbatim>\<open>path.relative\<close> throws a \<^verbatim>\<open>TypeError\<close> when
  \<open>projectRoot\<close> is still \<^verbatim>\<open>undefined\<close>.
\<close>

definition outPathOf :: "string \<Rightarrow> string \<Rightarrow> string \<Rightarrow> string \<Rightarrow> string" where
  "outPathOf cwd0 rootDir outDir srcFileAbsPath =
     (let relPath = replace_cljs (path_relative cwd0 rootDir srcFileAbsPath)
      in rootDir @ ''/'' @ outDir @ ''/'' @ relPath)"

definition resolveId ::
  "string \<Rightarrow> string option \<Rightarrow> resolveOptions \<Rightarrow> session \<Rightarrow> (error + string hook_result) \<times> session" where
  "resolveId ident importer options s =
     (if scan options then (Inr Null, s)
      else
        let srcFile = compiledFileMap s (propertyKey importer)
        in case importerDir srcFile importer of
             Inl e \<Rightarrow> (Inl e, s)
           | Inr dir \<Rightarrow>
               let absPath = path_resolve (cwd s) [dir, ident];
                   (ident', s1) = probeCljs absPath ident s
               in if test_cljs ident' then
                    let srcFileAbsPath = path_resolve (cwd s) [dir, ident']
                    in (case projectRoot s of
                          None \<Rightarrow> (Inl TypeError, s1)
                        | Some rootDir \<Rightarrow>
                            let outPath = outPathOf (cwd s) rootDir (outputDir s) srcFileAbsPath;
                                s2 = log [''resolving cljs->jsx'', srcFileAbsPath, outPath] s1
                            in (Inr (Value outPath),
                                s2\<lparr>srcFileMap := (srcFileMap s2)(srcFileAbsPath \<mapsto> (outPath, 0)),
                                   compiledFileMap := (compiledFileMap s2)(outPath \<mapsto> srcFileAbsPath)\<rparr>))
                  else if srcFile \<noteq> None \<and> truthy (the srcFile) then
                    (if \<not> isLibraryImport ident'
                     then (Inr (Value absPath),
                           log [''resolving import from'', the srcFile, ''to absolute path'', absPath] s1)
                     else (Inr Undefined, s1))
                  else (Inr Undefined, s1))"

subsection \<open>\<^verbatim>\<open>load\<close> (lines 81 to 105)\<close>

text \<open>
  \<^verbatim>\<open>load\<close> is an \<^verbatim>\<open>async\<close> function with one \<^verbatim>\<open>await\<close>, on the promise
  of \<^verbatim>\<open>compileString\<close> (line 96). It runs without interruption up to the call of the
  compiler (\<open>load_start\<close>), and again from the settlement of the promise to its end
  (\<open>load_resume\<close>); other hooks may run in between. \<open>suspended\<close> holds the local
  variables that live across the \<^verbatim>\<open>await\<close> and the settled promise: a rejection
  reason or the compiled JavaScript. The compiler is a parameter, a function of the source
  text and the \<^verbatim>\<open>in-file\<close> option; \<open>now\<close> is the time at which the artifact is
  written.
\<close>

datatype suspended =
  Suspended (s_id: string) (s_srcFile: string) (s_mtimeMs: rat) (s_compiled: "string + string")

datatype load_state =
    Settled "error + string hook_result"
  | Awaiting suspended

text \<open>Lines 101 to 104; the returned object is \<^verbatim>\<open>{ code, map: null }\<close>.\<close>

definition load_finish :: "string \<Rightarrow> session \<Rightarrow> (error + string hook_result) \<times> session" where
  "load_finish ident s =
     (let s1 = log [''loading compiled cljs file'', ident] s;
          (r, s2) = readFileSync ident s1
      in ((case r of Inl e \<Rightarrow> Inl e | Inr code \<Rightarrow> Inr (Value code)), s2))"

text \<open>\<^verbatim>\<open>srcFileMap[srcFile]?.[1] || 0\<close>, line 87.\<close>

definition modTimeOf :: "session \<Rightarrow> string \<Rightarrow> rat" where
  "modTimeOf s srcFile =
     (case srcFileMap s srcFile of
        None \<Rightarrow> 0
      | Some (_, t) \<Rightarrow> if t \<noteq> 0 then t else 0)"

text \<open>
  The names of the properties of \<^verbatim>\<open>Object.prototype\<close>. Their values are functions,
  and for \<^verbatim>\<open>__proto__\<close> the prototype itself: truthy, and not strings.
\<close>

definition objectPrototypeNames :: "string list" where
  "objectPrototypeNames =
     [''constructor'', ''__proto__'', ''hasOwnProperty'', ''isPrototypeOf'',
      ''propertyIsEnumerable'', ''toLocaleString'', ''toString'', ''valueOf'',
      ''__defineGetter__'', ''__defineSetter__'', ''__lookupGetter__'', ''__lookupSetter__'']"

text \<open>
  Lines 82 to 96. For an id that was not stored and names an inherited property,
  \<^verbatim>\<open>compiledFileMap[id]\<close> is truthy, line 83 does not return, and
  \<^verbatim>\<open>fs.statSync\<close> throws a \<^verbatim>\<open>TypeError\<close> for a path that is not a string,
  before it reaches the file system.
\<close>

definition load_start ::
  "(string \<Rightarrow> string \<Rightarrow> string + string) \<Rightarrow> string \<Rightarrow> session \<Rightarrow> load_state \<times> session" where
  "load_start compileString ident s =
     (case compiledFileMap s ident of
        None \<Rightarrow>
          if ident \<in> set objectPrototypeNames then (Settled (Inl TypeError), s)
          else (Settled (Inr Null), s)
      | Some srcFile \<Rightarrow>
          if \<not> truthy srcFile then (Settled (Inr Null), s)
          else
            let (st, s1) = statSync srcFile s
            in case st of
                 Inl e \<Rightarrow> (Settled (Inl e), s1)
               | Inr stats \<Rightarrow>
                   let modTime = modTimeOf s1 srcFile
                   in if modTime < mtimeMs stats then
                        let s2 = log [''compiling cljs file'', srcFile] s1;
                            (rd, s3) = readFileSync srcFile s2
                        in case rd of
                             Inl e \<Rightarrow> (Settled (Inl e), s3)
                           | Inr code \<Rightarrow>
                               (Awaiting (Suspended ident srcFile (mtimeMs stats)
                                            (compileString code srcFile)),
                                perform (CompileString code srcFile) s3)
                      else
                        let (r, s2) = load_finish ident s1 in (Settled r, s2))"

definition load_resume :: "rat \<Rightarrow> suspended \<Rightarrow> session \<Rightarrow> (error + string hook_result) \<times> session" where
  "load_resume now k s =
     (case s_compiled k of
        Inl reason \<Rightarrow> (Inl (CompileFailure reason), s)
      | Inr javascript \<Rightarrow>
          let (m, s1) = mkdirSync (dirname (s_id k)) now s
          in case m of
               Inl e \<Rightarrow> (Inl e, s1)
             | Inr _ \<Rightarrow>
                 let (w, s2) = writeFileSync (s_id k) javascript now s1
                 in case w of
                      Inl e \<Rightarrow> (Inl e, s2)
                    | Inr _ \<Rightarrow>
                        load_finish (s_id k)
                          (s2\<lparr>srcFileMap := (srcFileMap s2)(s_srcFile k \<mapsto> (s_id k, s_mtimeMs k))\<rparr>))"

text \<open>A load that no other hook interrupts.\<close>

definition load ::
  "(string \<Rightarrow> string \<Rightarrow> string + string) \<Rightarrow> rat \<Rightarrow> string \<Rightarrow> session
     \<Rightarrow> (error + string hook_result) \<times> session" where
  "load compileString now ident s =
     (case load_start compileString ident s of
        (Settled r, s') \<Rightarrow> (r, s')
      | (Awaiting k, s') \<Rightarrow> load_resume now k s')"

text \<open>
  Two calls of \<^verbatim>\<open>load\<close> for the same id that are both made before the compiler
  has answered either: each runs to its \<^verbatim>\<open>await\<close>, then the first caller's
  continuation runs, then the second's.
\<close>

definition concurrentLoads ::
  "(string \<Rightarrow> string \<Rightarrow> string + string) \<Rightarrow> rat \<Rightarrow> rat \<Rightarrow> string \<Rightarrow> session
     \<Rightarrow> ((error + string hook_result) \<times> (error + string hook_result)) \<times> session" where
  "concurrentLoads compileString nowA nowB ident s =
     (let (a, s1) = load_start compileString ident s;
          (b, s2) = load_start compileString ident s1;
          (rA, s3) = (case a of Settled r \<Rightarrow> (r, s2) | Awaiting k \<Rightarrow> load_resume nowA k s2);
          (rB, s4) = (case b of Settled r \<Rightarrow> (r, s3) | Awaiting k \<Rightarrow> load_resume nowB k s3)
      in ((rA, rB), s4))"

text \<open>The number of calls of the compiler and of \<^verbatim>\<open>writeFileSync\<close> in a record of
  effects.\<close>

fun compilerCalls :: "effect list \<Rightarrow> nat" where
  "compilerCalls [] = 0"
| "compilerCalls (CompileString code inFile # es) = Suc (compilerCalls es)"
| "compilerCalls (e # es) = compilerCalls es"

fun artifactWrites :: "effect list \<Rightarrow> nat" where
  "artifactWrites [] = 0"
| "artifactWrites (WriteFileSync p d # es) = Suc (artifactWrites es)"
| "artifactWrites (e # es) = artifactWrites es"

subsection \<open>\<^verbatim>\<open>handleHotUpdate\<close> (lines 106 to 122)\<close>

text \<open>
  The module graph of the server: \<^verbatim>\<open>getModuleById\<close> is a lookup, and the calls of
  \<^verbatim>\<open>onFileChange\<close> are recorded. The function has no \<^verbatim>\<open>return\<close> after the
  outer \<^verbatim>\<open>if\<close>: there it returns \<^verbatim>\<open>undefined\<close>.
\<close>

record 'm moduleGraph =
  idToModuleMap :: "string \<rightharpoonup> 'm"
  onFileChangeCalls :: "string list"

definition handleHotUpdate ::
  "string \<Rightarrow> 'm moduleGraph \<Rightarrow> 'm list \<Rightarrow> session \<Rightarrow> ('m list hook_result \<times> 'm moduleGraph) \<times> session" where
  "handleHotUpdate file graph modules s =
     (case (case srcFileMap s file of None \<Rightarrow> None | Some (c, _) \<Rightarrow> Some c) of
        None \<Rightarrow> ((Undefined, graph), s)
      | Some compiledFile \<Rightarrow>
          if truthy compiledFile then
            (case idToModuleMap graph compiledFile of
               Some m \<Rightarrow>
                 ((Value (modules @ [m]),
                   graph\<lparr>onFileChangeCalls := onFileChangeCalls graph @ [compiledFile]\<rparr>),
                  log [''HMR triggered by'', file, ''updating'', compiledFile] s)
             | None \<Rightarrow> ((Value modules, graph), s))
          else ((Undefined, graph), s))"

subsection \<open>What a call of \<^verbatim>\<open>resolveId\<close> looks at\<close>

text \<open>
  The specifier after lines 47 to 57, that is after the probe for a \<^verbatim>\<open>.cljs\<close>
  file, and the source file that line 60 computes from it when it ends in
  \<^verbatim>\<open>.cljs\<close>. Both are \<open>None\<close> when \<^verbatim>\<open>dirname\<close> throws.
\<close>

definition candidateOf :: "string \<Rightarrow> string option \<Rightarrow> session \<Rightarrow> string option" where
  "candidateOf ident importer s =
     (case importerDir (compiledFileMap s (propertyKey importer)) importer of
        Inl e \<Rightarrow> None
      | Inr dir \<Rightarrow> Some (fst (probeCljs (path_resolve (cwd s) [dir, ident]) ident s)))"

definition resolvedSource :: "string \<Rightarrow> string option \<Rightarrow> session \<Rightarrow> string option" where
  "resolvedSource ident importer s =
     (case importerDir (compiledFileMap s (propertyKey importer)) importer of
        Inl e \<Rightarrow> None
      | Inr dir \<Rightarrow>
          let ident' = fst (probeCljs (path_resolve (cwd s) [dir, ident]) ident s)
          in if test_cljs ident' then Some (path_resolve (cwd s) [dir, ident']) else None)"

subsection \<open>An example project\<close>

text \<open>
  A project at \<^verbatim>\<open>/p\<close> with output directory \<^verbatim>\<open>out\<close>, three source files, of
  which the third does not compile, and a style sheet.
\<close>

definition exampleFiles :: "string \<rightharpoonup> node" where
  "exampleFiles =
     [''/p'' \<mapsto> Directory 1,
      ''/p/src'' \<mapsto> Directory 1,
      ''/p/src/a.cljs'' \<mapsto> File ''(ns a)'' 10,
      ''/p/src/b.cljs'' \<mapsto> File ''(ns b)'' 20,
      ''/p/src/bad.cljs'' \<mapsto> File ''('' 30,
      ''/p/src/c.css'' \<mapsto> File ''p {}'' 40]"

definition exampleSession :: session where
  "exampleSession = configResolved ''/p'' (viteSquint (Some ''out'') False ''/p'' exampleFiles)"

definition exampleCompiler :: "string \<Rightarrow> string \<Rightarrow> string + string" where
  "exampleCompiler code inFile =
     (if code = ''('' then Inl ''EOF while reading'' else Inr (''// '' @ inFile))"

definition noScan :: resolveOptions where
  "noScan = \<lparr>scan = False\<rparr>"

definition exampleGraph :: "nat moduleGraph" where
  "exampleGraph = \<lparr>idToModuleMap = Map.empty, onFileChangeCalls = []\<rparr>"

text \<open>
  The session after \<^verbatim>\<open>a.cljs\<close> has been resolved from the entry page, and after
  its compiled module has then been loaded.
\<close>

definition resolvedSession :: session where
  "resolvedSession =
     snd (resolveId ''/p/src/a.cljs'' (Some ''/p/index.html'') noScan exampleSession)"

definition loadedSession :: session where
  "loadedSession = snd (load exampleCompiler 100 ''/p/out/src/a.jsx'' resolvedSession)"

text \<open>The session after the source file that does not compile has been resolved.\<close>

definition badSession :: session where
  "badSession =
     snd (resolveId ''/p/src/bad.cljs'' (Some ''/p/index.html'') noScan exampleSession)"

section \<open>Termination of the recursive \<^verbatim>\<open>mkdir\<close>\<close>

lemma dropWhile_shorter:
  assumes "dropWhile P xs \<noteq> xs"
  shows "length (dropWhile P xs) < length xs"
proof -
  have "takeWhile P xs \<noteq> []"
  proof
    assume "takeWhile P xs = []"
    then have "dropWhile P xs = xs"
      using takeWhile_dropWhile_id [of P xs] by simp
    with assms show False by simp
  qed
  moreover have "length xs = length (takeWhile P xs) + length (dropWhile P xs)"
    using takeWhile_dropWhile_id [of P xs] by (metis length_append)
  ultimately show ?thesis by simp
qed

lemma dirname_cases:
  assumes "p \<noteq> []"
    and "r = dropWhile (\<lambda>c. c = slash) (rev (tl p))"
    and "r' = dropWhile (\<lambda>c. c \<noteq> slash) r"
  shows "dirname p =
           (if r' = [] then (if hd p = slash then ''/'' else ''.'')
            else if hd p = slash \<and> tl r' = [] then ''//''
            else hd p # rev (tl r'))"
  using assms unfolding dirname_def Let_def by (simp only: if_False)

lemma basename_start_shorter:
  assumes r: "r = dropWhile (\<lambda>c. c = slash) xs"
    and r': "r' = dropWhile (\<lambda>c. c \<noteq> slash) r"
    and ne: "r' \<noteq> []"
  shows "length r' < length r"
proof -
  have hd': "hd r' = slash"
    using ne hd_dropWhile [of "\<lambda>c. c \<noteq> slash" r] unfolding r' by simp
  have "r' \<noteq> r"
  proof
    assume eq: "r' = r"
    then have "r \<noteq> []" using ne by simp
    then have "hd r \<noteq> slash"
      using hd_dropWhile [of "\<lambda>c. c = slash" xs] unfolding r by simp
    with eq hd' show False by simp
  qed
  then show ?thesis unfolding r' by (rule dropWhile_shorter)
qed

lemma dirname_dot: "dirname ''.'' = ''.''"
  by (simp add: dirname_def slash_def)

lemma dirname_root: "dirname ''/'' = ''/''"
  by (simp add: dirname_def slash_def)

lemma dirname_shorter:
  "dirname p = ''.'' \<or> dirname p = ''/'' \<or> length (dirname p) < length p"
proof (cases "p = []")
  case True
  then show ?thesis by (simp add: dirname_def)
next
  case False
  obtain r where r: "r = dropWhile (\<lambda>c. c = slash) (rev (tl p))" by simp
  obtain r' where r': "r' = dropWhile (\<lambda>c. c \<noteq> slash) r" by simp
  note d = dirname_cases [OF False r r']
  show ?thesis
  proof (cases "r' = []")
    case True
    then show ?thesis using d by simp
  next
    case ne: False
    have "length r' < length r" using basename_start_shorter [OF r r' ne] .
    moreover have "length r \<le> length p - 1"
      using length_dropWhile_le [of "\<lambda>c. c = slash" "rev (tl p)"] r by simp
    ultimately have "length r' + 1 \<le> length p - 1" by simp
    moreover have "length r' > 0" using ne by simp
    ultimately have c: "length r' + 1 \<le> length p - 1 \<and> 0 < length r'" by blast
    have b: "2 < length p" using c by arith
    have "length (tl r') + 1 = length r'" using ne by (cases r') simp_all
    then have "length (tl r') + 1 < length p" using c by arith
    then have a: "length (hd p # rev (tl r')) < length p" by (simp del: length_tl)
    show ?thesis
    proof (cases "hd p = slash \<and> tl r' = []")
      case True
      then have "dirname p = ''//''" using d ne by simp
      then show ?thesis using b by simp
    next
      case False
      then have "dirname p = hd p # rev (tl r')" using d ne by simp
      then show ?thesis using a by simp
    qed
  qed
qed

termination mkdirs
proof (relation "measure (\<lambda>(now, p, fs). if dirname p = p then 0 else Suc (length p))")
  show "wf (measure (\<lambda>(now, p, fs). if dirname p = p then 0 else Suc (length p)))"
    by simp
next
  fix now :: rat and p :: string and fs :: "string \<rightharpoonup> node"
  assume ne: "dirname p \<noteq> p"
  consider "dirname p = ''.''" | "dirname p = ''/''" | "length (dirname p) < length p"
    using dirname_shorter [of p] by blast
  then show "((now, dirname p, fs), (now, p, fs))
      \<in> measure (\<lambda>(now, p, fs). if dirname p = p then 0 else Suc (length p))"
  proof cases
    case 1
    then show ?thesis using ne dirname_dot by simp
  next
    case 2
    then show ?thesis using ne dirname_root by simp
  next
    case 3
    then show ?thesis using ne by simp
  qed
qed

text \<open>The equation of \<open>mkdirs\<close> is recursive without a pattern: it is unfolded by hand.\<close>

declare mkdirs.simps [simp del]

section \<open>Basic facts\<close>

lemma log_fields [simp]:
  "outputDir (log a s) = outputDir s"
  "projectRoot (log a s) = projectRoot s"
  "srcFileMap (log a s) = srcFileMap s"
  "compiledFileMap (log a s) = compiledFileMap s"
  "debug (log a s) = debug s"
  "cwd (log a s) = cwd s"
  "files (log a s) = files s"
  "effects (log a s) = effects s"
  by (simp_all add: log_def)

lemma perform_fields [simp]:
  "outputDir (perform e s) = outputDir s"
  "projectRoot (perform e s) = projectRoot s"
  "srcFileMap (perform e s) = srcFileMap s"
  "compiledFileMap (perform e s) = compiledFileMap s"
  "debug (perform e s) = debug s"
  "console (perform e s) = console s"
  "cwd (perform e s) = cwd s"
  "files (perform e s) = files s"
  "effects (perform e s) = effects s @ [e]"
  by (simp_all add: perform_def)

lemma isFile_fields [simp]:
  "outputDir (snd (isFile p s)) = outputDir s"
  "projectRoot (snd (isFile p s)) = projectRoot s"
  "srcFileMap (snd (isFile p s)) = srcFileMap s"
  "compiledFileMap (snd (isFile p s)) = compiledFileMap s"
  "cwd (snd (isFile p s)) = cwd s"
  "files (snd (isFile p s)) = files s"
  "effects (snd (isFile p s)) = effects s @ [StatSync p]"
  by (simp_all add: isFile_def statSync_def)

lemma probeCljs_fields [simp]:
  "outputDir (snd (probeCljs absPath ident s)) = outputDir s"
  "projectRoot (snd (probeCljs absPath ident s)) = projectRoot s"
  "srcFileMap (snd (probeCljs absPath ident s)) = srcFileMap s"
  "compiledFileMap (snd (probeCljs absPath ident s)) = compiledFileMap s"
  "cwd (snd (probeCljs absPath ident s)) = cwd s"
  "files (snd (probeCljs absPath ident s)) = files s"
  by (simp_all add: probeCljs_def Let_def split: prod.splits)
     (metis isFile_fields snd_conv)+

lemma probeCljs_frame:
  assumes "probeCljs absPath ident s = (ident', s')"
  shows "outputDir s' = outputDir s" "projectRoot s' = projectRoot s"
    "srcFileMap s' = srcFileMap s" "compiledFileMap s' = compiledFileMap s"
    "cwd s' = cwd s" "files s' = files s"
  using probeCljs_fields [of absPath ident s] assms by simp_all

section \<open>Resolution\<close>

text \<open>The branch of lines 59 to 70, as one equation.\<close>

lemma resolveId_cljs:
  assumes "\<not> scan options"
    and "resolvedSource ident importer s = Some src"
    and "projectRoot s = Some rootDir"
  obtains s' where
    "resolveId ident importer options s =
       (Inr (Value (outPathOf (cwd s) rootDir (outputDir s) src)), s')"
    "srcFileMap s' = (srcFileMap s)(src \<mapsto> (outPathOf (cwd s) rootDir (outputDir s) src, 0))"
    "compiledFileMap s' = (compiledFileMap s)(outPathOf (cwd s) rootDir (outputDir s) src \<mapsto> src)"
    "files s' = files s" "cwd s' = cwd s" "projectRoot s' = projectRoot s"
    "outputDir s' = outputDir s"
proof -
  obtain dir where dir: "importerDir (compiledFileMap s (propertyKey importer)) importer = Inr dir"
    using assms(2) by (cases "importerDir (compiledFileMap s (propertyKey importer)) importer")
      (simp_all add: resolvedSource_def)
  obtain ident' s1 where p: "probeCljs (path_resolve (cwd s) [dir, ident]) ident s = (ident', s1)"
    by (cases "probeCljs (path_resolve (cwd s) [dir, ident]) ident s")
  from assms(2) dir p have t: "test_cljs ident'" and src: "src = path_resolve (cwd s) [dir, ident']"
    by (simp_all add: resolvedSource_def Let_def split: if_splits)
  note fr = probeCljs_frame [OF p]
  let ?out = "outPathOf (cwd s) rootDir (outputDir s) src"
  let ?s2 = "log [''resolving cljs->jsx'', src, ?out] s1"
  let ?s' = "?s2\<lparr>srcFileMap := (srcFileMap ?s2)(src \<mapsto> (?out, 0)),
                  compiledFileMap := (compiledFileMap ?s2)(?out \<mapsto> src)\<rparr>"
  have "resolveId ident importer options s = (Inr (Value ?out), ?s')"
    using assms(1,3) dir p t src by (simp add: resolveId_def Let_def)
  moreover have "srcFileMap ?s' = (srcFileMap s)(src \<mapsto> (?out, 0))"
    "compiledFileMap ?s' = (compiledFileMap s)(?out \<mapsto> src)"
    "files ?s' = files s" "cwd ?s' = cwd s" "projectRoot ?s' = projectRoot s"
    "outputDir ?s' = outputDir s"
    using fr by simp_all
  ultimately show thesis using that by blast
qed

text \<open>
  Claim C1 says that resolving a specifier whose source file is already in
  \<open>srcFileMap\<close> leaves the stored modification time as it was. Line 67 stores
  \<^verbatim>\<open>[outPath, 0]\<close> on every call: in the example, the time \<open>10\<close> recorded by the
  load of \<^verbatim>\<open>a.cljs\<close> is \<open>0\<close> again after the file is resolved a second time.
\<close>

theorem resolveId_reregister_counterexample:
  "srcFileMap loadedSession ''/p/src/a.cljs'' = Some (''/p/out/src/a.jsx'', 10) \<and>
   resolvedSource ''./a.cljs'' (Some ''/p/src/main.js'') loadedSession = Some ''/p/src/a.cljs'' \<and>
   srcFileMap (snd (resolveId ''./a.cljs'' (Some ''/p/src/main.js'') noScan loadedSession))
      ''/p/src/a.cljs'' = Some (''/p/out/src/a.jsx'', 0) \<and>
   srcFileMap (snd (resolveId ''./a.cljs'' (Some ''/p/src/main.js'') noScan loadedSession))
      ''/p/src/a.cljs'' \<noteq> srcFileMap loadedSession ''/p/src/a.cljs''"
  by code_simp

text \<open>
  Claim C1, amended: resolving a specifier whose source file is already in
  \<open>srcFileMap\<close> returns an output path and stores that path with the modification time
  \<open>0\<close> for the source file, whatever time was stored before; \<open>compiledFileMap\<close>
  maps the output path back to the source file.
\<close>

theorem resolveId_reregister_resets:
  assumes "\<not> scan options"
    and "projectRoot s = Some rootDir"
    and "resolvedSource ident importer s = Some src"
    and "srcFileMap s src = Some (out0, t)"
  shows "\<exists>out. fst (resolveId ident importer options s) = Inr (Value out) \<and>
           srcFileMap (snd (resolveId ident importer options s)) src = Some (out, 0) \<and>
           compiledFileMap (snd (resolveId ident importer options s)) out = Some src"
proof -
  obtain s' where
    "resolveId ident importer options s =
       (Inr (Value (outPathOf (cwd s) rootDir (outputDir s) src)), s')"
    "srcFileMap s' = (srcFileMap s)(src \<mapsto> (outPathOf (cwd s) rootDir (outputDir s) src, 0))"
    "compiledFileMap s' = (compiledFileMap s)(outPathOf (cwd s) rootDir (outputDir s) src \<mapsto> src)"
    using resolveId_cljs [OF assms(1) assms(3) assms(2)] by blast
  then show ?thesis by simp
qed

theorem resolveId_reregister_resets_witness:
  "\<not> scan noScan \<and> projectRoot loadedSession = Some ''/p'' \<and>
   resolvedSource ''./a.cljs'' (Some ''/p/src/main.js'') loadedSession = Some ''/p/src/a.cljs'' \<and>
   srcFileMap loadedSession ''/p/src/a.cljs'' = Some (''/p/out/src/a.jsx'', 10) \<and>
   (\<exists>out. fst (resolveId ''./a.cljs'' (Some ''/p/src/main.js'') noScan loadedSession)
            = Inr (Value out) \<and>
      srcFileMap (snd (resolveId ''./a.cljs'' (Some ''/p/src/main.js'') noScan loadedSession))
         ''/p/src/a.cljs'' = Some (out, 0) \<and>
      compiledFileMap (snd (resolveId ''./a.cljs'' (Some ''/p/src/main.js'') noScan loadedSession))
         out = Some ''/p/src/a.cljs'')"
proof -
  have h1: "\<not> scan noScan" by code_simp
  have h2: "projectRoot loadedSession = Some ''/p''" by code_simp
  have h3: "resolvedSource ''./a.cljs'' (Some ''/p/src/main.js'') loadedSession
              = Some ''/p/src/a.cljs''"
    by code_simp
  have h4: "srcFileMap loadedSession ''/p/src/a.cljs'' = Some (''/p/out/src/a.jsx'', 10)"
    by code_simp
  show ?thesis using h1 h2 h3 h4 resolveId_reregister_resets [OF h1 h2 h3 h4] by blast
qed

text \<open>
  Claim C2: within a session (the project root, the output directory and the working
  directory are fixed), two calls of \<^verbatim>\<open>resolveId\<close> outside the scan that reach the
  same source file return the same output path, which is computed from the project root,
  the output directory and the path of the source file relative to the project root.
\<close>

theorem resolveId_same_source_same_output:
  assumes "\<not> scan options1" and "\<not> scan options2"
    and "projectRoot s1 = Some rootDir" and "projectRoot s2 = Some rootDir"
    and "outputDir s2 = outputDir s1" and "cwd s2 = cwd s1"
    and "resolvedSource ident1 importer1 s1 = Some src"
    and "resolvedSource ident2 importer2 s2 = Some src"
  shows "fst (resolveId ident1 importer1 options1 s1) =
           Inr (Value (rootDir @ ''/'' @ outputDir s1 @ ''/'' @
                       replace_cljs (path_relative (cwd s1) rootDir src))) \<and>
         fst (resolveId ident2 importer2 options2 s2) = fst (resolveId ident1 importer1 options1 s1)"
proof -
  obtain s1' where "resolveId ident1 importer1 options1 s1 =
       (Inr (Value (outPathOf (cwd s1) rootDir (outputDir s1) src)), s1')"
    using resolveId_cljs [OF assms(1) assms(7) assms(3)] by blast
  moreover obtain s2' where "resolveId ident2 importer2 options2 s2 =
       (Inr (Value (outPathOf (cwd s2) rootDir (outputDir s2) src)), s2')"
    using resolveId_cljs [OF assms(2) assms(8) assms(4)] by blast
  ultimately show ?thesis using assms(5,6) by (simp add: outPathOf_def)
qed

theorem resolveId_same_source_same_output_witness:
  "\<not> scan noScan \<and> projectRoot exampleSession = Some ''/p'' \<and>
   projectRoot loadedSession = Some ''/p'' \<and>
   outputDir loadedSession = outputDir exampleSession \<and> cwd loadedSession = cwd exampleSession \<and>
   resolvedSource ''/p/src/a.cljs'' (Some ''/p/index.html'') exampleSession
     = Some ''/p/src/a.cljs'' \<and>
   resolvedSource ''./a'' (Some ''/p/src/main.js'') loadedSession = Some ''/p/src/a.cljs'' \<and>
   fst (resolveId ''/p/src/a.cljs'' (Some ''/p/index.html'') noScan exampleSession)
     = Inr (Value ''/p/out/src/a.jsx'') \<and>
   fst (resolveId ''./a'' (Some ''/p/src/main.js'') noScan loadedSession)
     = Inr (Value ''/p/out/src/a.jsx'')"
proof -
  have h1: "\<not> scan noScan" by code_simp
  have h2: "projectRoot exampleSession = Some ''/p''" by code_simp
  have h3: "projectRoot loadedSession = Some ''/p''" by code_simp
  have h4: "outputDir loadedSession = outputDir exampleSession" by code_simp
  have h5: "cwd loadedSession = cwd exampleSession" by code_simp
  have h6: "resolvedSource ''/p/src/a.cljs'' (Some ''/p/index.html'') exampleSession
              = Some ''/p/src/a.cljs''"
    by code_simp
  have h7: "resolvedSource ''./a'' (Some ''/p/src/main.js'') loadedSession
              = Some ''/p/src/a.cljs''"
    by code_simp
  have h8: "''/p'' @ ''/'' @ outputDir exampleSession @ ''/'' @
              replace_cljs (path_relative (cwd exampleSession) ''/p'' ''/p/src/a.cljs'')
            = ''/p/out/src/a.jsx''"
    by code_simp
  show ?thesis
    using h1 h2 h3 h4 h5 h6 h7 h8
      resolveId_same_source_same_output [OF h1 h1 h2 h3 h4 h5 h6 h7]
    by simp
qed

text \<open>
  Claim C5: during the scan (\<^verbatim>\<open>options.scan\<close> set) \<^verbatim>\<open>resolveId\<close> returns
  \<^verbatim>\<open>null\<close> and the session is the one it started from: both dictionaries are
  unchanged and no call of \<^verbatim>\<open>fs\<close> is made.
\<close>

theorem resolveId_scan_defers:
  "scan options \<Longrightarrow> resolveId ident importer options s = (Inr Null, s)"
  by (simp add: resolveId_def)

theorem resolveId_scan_defers_witness:
  "scan \<lparr>scan = True\<rparr> \<and>
   resolveId ''./b'' (Some ''/p/src/a.cljs'') \<lparr>scan = True\<rparr> exampleSession
     = (Inr Null, exampleSession) \<and>
   effects (snd (resolveId ''./b'' (Some ''/p/src/a.cljs'') noScan exampleSession))
     \<noteq> effects exampleSession"
proof -
  have h: "scan \<lparr>scan = True\<rparr>" by simp
  have "effects (snd (resolveId ''./b'' (Some ''/p/src/a.cljs'') noScan exampleSession))
          = [StatSync ''/p/src/b.cljs'']"
    by code_simp
  moreover have "effects exampleSession = []" by code_simp
  ultimately show ?thesis
    using resolveId_scan_defers [OF h, of "''./b''" "Some ''/p/src/a.cljs''" exampleSession] h
    by simp
qed

text \<open>
  Claim C10: a call of \<^verbatim>\<open>resolveId\<close> outside the scan whose specifier, after the
  probe for a \<^verbatim>\<open>.cljs\<close> file, does not end in \<^verbatim>\<open>.cljs\<close> leaves
  \<open>srcFileMap\<close> and \<open>compiledFileMap\<close> unchanged, whether it returns
  \<^verbatim>\<open>undefined\<close> or an absolute path.
\<close>

theorem resolveId_not_cljs_frame:
  assumes "\<not> scan options"
    and "candidateOf ident importer s = Some c"
    and "\<not> test_cljs c"
  shows "srcFileMap (snd (resolveId ident importer options s)) = srcFileMap s \<and>
         compiledFileMap (snd (resolveId ident importer options s)) = compiledFileMap s \<and>
         (fst (resolveId ident importer options s) = Inr Undefined \<or>
          (\<exists>dir. importerDir (compiledFileMap s (propertyKey importer)) importer = Inr dir \<and>
             fst (resolveId ident importer options s)
               = Inr (Value (path_resolve (cwd s) [dir, ident]))))"
proof -
  obtain dir where dir: "importerDir (compiledFileMap s (propertyKey importer)) importer = Inr dir"
    using assms(2) by (cases "importerDir (compiledFileMap s (propertyKey importer)) importer")
      (simp_all add: candidateOf_def)
  obtain ident' s1 where p: "probeCljs (path_resolve (cwd s) [dir, ident]) ident s = (ident', s1)"
    by (cases "probeCljs (path_resolve (cwd s) [dir, ident]) ident s")
  from assms(2) dir p have c: "c = ident'" by (simp add: candidateOf_def)
  note fr = probeCljs_frame [OF p]
  have "srcFileMap (snd (resolveId ident importer options s)) = srcFileMap s"
    "compiledFileMap (snd (resolveId ident importer options s)) = compiledFileMap s"
    using assms(1,3) dir p c fr by (simp_all add: resolveId_def Let_def)
  moreover have "fst (resolveId ident importer options s) = Inr Undefined \<or>
      fst (resolveId ident importer options s) = Inr (Value (path_resolve (cwd s) [dir, ident]))"
    using assms(1,3) dir p c by (simp add: resolveId_def Let_def)
  ultimately show ?thesis using dir by simp
qed

theorem resolveId_not_cljs_frame_witness:
  "\<not> scan noScan \<and>
   candidateOf ''./c.css'' (Some ''/p/out/src/a.jsx'') resolvedSession = Some ''./c.css'' \<and>
   \<not> test_cljs ''./c.css'' \<and>
   fst (resolveId ''./c.css'' (Some ''/p/out/src/a.jsx'') noScan resolvedSession)
     = Inr (Value ''/p/src/c.css'') \<and>
   srcFileMap (snd (resolveId ''./c.css'' (Some ''/p/out/src/a.jsx'') noScan resolvedSession))
     = srcFileMap resolvedSession \<and>
   compiledFileMap (snd (resolveId ''./c.css'' (Some ''/p/out/src/a.jsx'') noScan resolvedSession))
     = compiledFileMap resolvedSession"
proof -
  have h1: "\<not> scan noScan" by code_simp
  have h2: "candidateOf ''./c.css'' (Some ''/p/out/src/a.jsx'') resolvedSession = Some ''./c.css''"
    by code_simp
  have h3: "\<not> test_cljs ''./c.css''" by code_simp
  have h4: "fst (resolveId ''./c.css'' (Some ''/p/out/src/a.jsx'') noScan resolvedSession)
              = Inr (Value ''/p/src/c.css'')"
    by code_simp
  show ?thesis using h1 h2 h3 h4 resolveId_not_cljs_frame [OF h1 h2 h3] by simp
qed

subsection \<open>The scenario of the specification\<close>

lemma resolve_abs_a: "path_resolve c [d, ''/p/src/a.cljs''] = ''/p/src/a.cljs''"
  by (simp add: path_resolve_def slash_def Let_def)

lemma relative_a: "path_relative c ''/p'' ''/p/src/a.cljs'' = ''src/a.cljs''"
  by (simp add: path_relative_def path_resolve_def slash_def Let_def segments_def)

lemma relative_b: "path_relative c ''/p'' ''/p/src/b.cljs'' = ''src/b.cljs''"
  by (simp add: path_relative_def path_resolve_def slash_def Let_def segments_def)

lemma resolve_b: "path_resolve c [''/p/src'', ''./b''] = ''/p/src/b''"
  by (simp add: path_resolve_def slash_def Let_def)

lemma resolve_abs_b: "path_resolve c [d, ''/p/src/b.cljs''] = ''/p/src/b.cljs''"
  by (simp add: path_resolve_def slash_def Let_def)

lemma source_a:
  "resolvedSource ''/p/src/a.cljs'' (Some importer) s = Some ''/p/src/a.cljs''"
proof -
  have "hasExtension ''/p/src/a.cljs''" by code_simp
  moreover have "test_cljs ''/p/src/a.cljs''" by code_simp
  ultimately show ?thesis
    by (simp add: resolvedSource_def importerDir_def probeCljs_def resolve_abs_a
        split: option.splits)
qed

lemma source_b:
  assumes "compiledFileMap s ''/p/out/src/a.jsx'' = Some ''/p/src/a.cljs''"
    and "files s ''/p/src/b.cljs'' = Some (File code m)"
  shows "resolvedSource ''./b'' (Some ''/p/out/src/a.jsx'') s = Some ''/p/src/b.cljs''"
proof -
  have "\<not> hasExtension ''./b''" by code_simp
  moreover have "test_cljs ''/p/src/b.cljs''" by code_simp
  moreover have "truthy ''/p/src/a.cljs''" by code_simp
  moreover have "dirname ''/p/src/a.cljs'' = ''/p/src''" by code_simp
  moreover have "fst (isFile ''/p/src/b.cljs'' s) = Some True"
    using assms(2) by (simp add: isFile_def statSync_def)
  ultimately show ?thesis
    using assms(1)
    by (auto simp: resolvedSource_def importerDir_def probeCljs_def propertyKey_def
        resolve_b resolve_abs_b Let_def split: prod.splits)
qed

text \<open>
  Claim C6: with project root \<^verbatim>\<open>/p\<close> and output directory \<^verbatim>\<open>out\<close>, resolving
  \<^verbatim>\<open>/p/src/a.cljs\<close> yields \<^verbatim>\<open>/p/out/src/a.jsx\<close>, and resolving
  \<^verbatim>\<open>./b\<close> from the compiled module \<^verbatim>\<open>/p/out/src/a.jsx\<close>, when the file
  \<^verbatim>\<open>/p/src/b.cljs\<close> exists, yields \<^verbatim>\<open>/p/out/src/b.jsx\<close>: the import is
  resolved against the directory of the source file and then mapped into the output
  directory. The rest of the session, the working directory and the first importer are
  arbitrary.
\<close>

theorem scenario:
  assumes "projectRoot s = Some ''/p''" and "outputDir s = ''out''"
    and "files s ''/p/src/b.cljs'' = Some (File code m)"
    and "resolveId ''/p/src/a.cljs'' (Some importer) noScan s = (r1, s1)"
  shows "r1 = Inr (Value ''/p/out/src/a.jsx'') \<and>
         fst (resolveId ''./b'' (Some ''/p/out/src/a.jsx'') noScan s1)
           = Inr (Value ''/p/out/src/b.jsx'')"
proof -
  have ns: "\<not> scan noScan" by (simp add: noScan_def)
  have oa: "outPathOf c ''/p'' ''out'' ''/p/src/a.cljs'' = ''/p/out/src/a.jsx''" for c
    by (simp add: outPathOf_def relative_a replace_cljs_def test_cljs_def endsWith_def)
  have ob: "outPathOf c ''/p'' ''out'' ''/p/src/b.cljs'' = ''/p/out/src/b.jsx''" for c
    by (simp add: outPathOf_def relative_b replace_cljs_def test_cljs_def endsWith_def)
  obtain s' where a:
    "resolveId ''/p/src/a.cljs'' (Some importer) noScan s =
       (Inr (Value (outPathOf (cwd s) ''/p'' (outputDir s) ''/p/src/a.cljs'')), s')"
    "compiledFileMap s' = (compiledFileMap s)
        (outPathOf (cwd s) ''/p'' (outputDir s) ''/p/src/a.cljs'' \<mapsto> ''/p/src/a.cljs'')"
    "files s' = files s" "projectRoot s' = projectRoot s" "outputDir s' = outputDir s"
    using resolveId_cljs [OF ns source_a assms(1)] by blast
  from a(1) assms(4) have r1: "r1 = Inr (Value ''/p/out/src/a.jsx'')" and s1: "s1 = s'"
    by (simp_all add: assms(2) oa)
  have c1: "compiledFileMap s1 ''/p/out/src/a.jsx'' = Some ''/p/src/a.cljs''"
    using a(2) s1 by (simp add: assms(2) oa)
  have f1: "files s1 ''/p/src/b.cljs'' = Some (File code m)"
    using a(3) s1 assms(3) by simp
  have p1: "projectRoot s1 = Some ''/p''" and o1: "outputDir s1 = ''out''"
    using a(4,5) s1 assms(1,2) by simp_all
  obtain s2 where
    "resolveId ''./b'' (Some ''/p/out/src/a.jsx'') noScan s1 =
       (Inr (Value (outPathOf (cwd s1) ''/p'' (outputDir s1) ''/p/src/b.cljs'')), s2)"
    using resolveId_cljs [OF ns source_b [OF c1 f1] p1] by blast
  then show ?thesis using r1 by (simp add: o1 ob)
qed

theorem scenario_witness:
  "projectRoot exampleSession = Some ''/p'' \<and> outputDir exampleSession = ''out'' \<and>
   files exampleSession ''/p/src/b.cljs'' = Some (File ''(ns b)'' 20) \<and>
   resolveId ''/p/src/a.cljs'' (Some ''/p/index.html'') noScan exampleSession
     = (Inr (Value ''/p/out/src/a.jsx''), resolvedSession) \<and>
   fst (resolveId ''./b'' (Some ''/p/out/src/a.jsx'') noScan resolvedSession)
     = Inr (Value ''/p/out/src/b.jsx'')"
proof -
  have h1: "projectRoot exampleSession = Some ''/p''" by code_simp
  have h2: "outputDir exampleSession = ''out''" by code_simp
  have h3: "files exampleSession ''/p/src/b.cljs'' = Some (File ''(ns b)'' 20)" by code_simp
  have h4: "resolveId ''/p/src/a.cljs'' (Some ''/p/index.html'') noScan exampleSession
              = (fst (resolveId ''/p/src/a.cljs'' (Some ''/p/index.html'') noScan exampleSession),
                 resolvedSession)"
    by (simp add: resolvedSession_def)
  show ?thesis using h1 h2 h3 h4 scenario [OF h1 h2 h3 h4] by simp
qed

section \<open>Loading\<close>




subsection \<open>The two halves of a load\<close>

lemma compilerCalls_append [simp]:
  "compilerCalls (xs @ ys) = compilerCalls xs + compilerCalls ys"
  by (induction xs rule: compilerCalls.induct) simp_all

lemma artifactWrites_append [simp]:
  "artifactWrites (xs @ ys) = artifactWrites xs + artifactWrites ys"
  by (induction xs rule: artifactWrites.induct) simp_all

lemma modTimeOf_cong:
  "srcFileMap s' src = srcFileMap s src \<Longrightarrow> modTimeOf s' src = modTimeOf s src"
  by (simp add: modTimeOf_def)

lemma modTimeOf_stored:
  "srcFileMap s src = Some (out, t) \<Longrightarrow> modTimeOf s src = t"
  by (simp add: modTimeOf_def)

lemma load_finish_File:
  "files s ident = Some (File code m) \<Longrightarrow>
   load_finish ident s =
     (Inr (Value code), perform (ReadFileSync ident) (log [''loading compiled cljs file'', ident] s))"
  by (simp add: load_finish_def readFileSync_def)

lemma load_finish_InrD:
  assumes "load_finish ident s = (Inr r, s')"
  shows "\<exists>code m. files s ident = Some (File code m) \<and> r = Value code \<and>
           s' = perform (ReadFileSync ident) (log [''loading compiled cljs file'', ident] s)"
  using assms
  by (auto simp: load_finish_def readFileSync_def split: option.splits node.splits)

lemma load_finish_error:
  "load_finish ident s = (Inl e, s') \<Longrightarrow> e = ENOENT \<or> e = EISDIR"
  by (auto simp: load_finish_def readFileSync_def split: option.splits node.splits)

lemma load_start_AwaitingI:
  assumes "compiledFileMap s ident = Some src" and "truthy src"
    and "files s src = Some (File code m)" and "modTimeOf s src < m"
  shows "load_start compileString ident s =
           (Awaiting (Suspended ident src m (compileString code src)),
            perform (CompileString code src)
              (perform (ReadFileSync src)
                 (log [''compiling cljs file'', src] (perform (StatSync src) s))))"
  using assms
  by (simp add: load_start_def statSync_def readFileSync_def modTimeOf_def)

lemma load_start_AwaitingD:
  assumes "load_start compileString ident s = (Awaiting k, s')"
  shows "\<exists>src code m. compiledFileMap s ident = Some src \<and> truthy src \<and>
           files s src = Some (File code m) \<and> modTimeOf s src < m \<and>
           k = Suspended ident src m (compileString code src) \<and>
           s' = perform (CompileString code src)
                  (perform (ReadFileSync src)
                     (log [''compiling cljs file'', src] (perform (StatSync src) s)))"
  using assms
  by (auto simp: load_start_def statSync_def readFileSync_def modTimeOf_def Let_def
      split: option.splits node.splits if_splits prod.splits)

lemma load_start_freshI:
  assumes "compiledFileMap s ident = Some src" and "truthy src"
    and "files s src = Some n" and "\<not> modTimeOf s src < mtimeMs n"
  shows "load_start compileString ident s =
           (Settled (fst (load_finish ident (perform (StatSync src) s))),
            snd (load_finish ident (perform (StatSync src) s)))"
  using assms
  by (simp add: load_start_def statSync_def modTimeOf_def split: prod.splits)

lemma load_start_SettledD:
  assumes "load_start compileString ident s = (Settled (Inr r), s')"
    and "compiledFileMap s ident = Some src" and "truthy src"
  shows "\<exists>n. files s src = Some n \<and> \<not> modTimeOf s src < mtimeMs n \<and>
           load_finish ident (perform (StatSync src) s) = (Inr r, s')"
  using assms
  by (auto simp: load_start_def statSync_def readFileSync_def modTimeOf_def Let_def
      split: option.splits node.splits if_splits prod.splits)

lemma load_start_Settled_error:
  assumes "load_start compileString ident s = (Settled (Inl e), s')"
  shows "e = ENOENT \<or> e = EISDIR \<or> e = TypeError"
  using assms
  by (auto simp: load_start_def statSync_def readFileSync_def Let_def
      split: option.splits node.splits if_splits prod.splits dest: load_finish_error)

lemma mkdirs_error: "mkdirs now p fs = Inl e \<Longrightarrow> e = EEXIST \<or> e = ENOTDIR"
  by (subst (asm) mkdirs.simps) (auto split: option.splits node.splits if_splits sum.splits)

lemma mkdirs_there:
  "fs p = Some (Directory m) \<or> (fs p = None \<and> dirname p = p) \<Longrightarrow> mkdirs now p fs = Inr fs"
  by (subst mkdirs.simps) auto

lemma mkdirs_result:
  "mkdirs now p fs = Inr fs' \<Longrightarrow>
     (\<forall>q. fs q \<noteq> None \<longrightarrow> fs' q = fs q) \<and>
     ((\<exists>m. fs' p = Some (Directory m)) \<or> (fs' p = None \<and> dirname p = p))"
proof (induction now p fs arbitrary: fs' rule: mkdirs.induct)
  case (1 now p fs)
  show ?case
  proof (cases "fs p")
    case None
    show ?thesis
    proof (cases "dirname p = p")
      case True
      with None "1.prems" show ?thesis by (subst (asm) mkdirs.simps) simp
    next
      case False
      with None "1.prems" obtain fs0 where
        r: "mkdirs now (dirname p) fs = Inr fs0" and fs': "fs' = fs0(p \<mapsto> Directory now)"
        by (subst (asm) mkdirs.simps) (auto split: sum.splits)
      from "1.IH" [OF None False r] have "\<forall>q. fs q \<noteq> None \<longrightarrow> fs0 q = fs q" by simp
      with fs' None show ?thesis by auto
    qed
  next
    case (Some n)
    with "1.prems" show ?thesis
      by (subst (asm) mkdirs.simps) (auto split: node.splits)
  qed
qed

lemma load_resume_rejected:
  "s_compiled k = Inl reason \<Longrightarrow> load_resume now k s = (Inl (CompileFailure reason), s)"
  by (simp add: load_resume_def)

lemma load_resume_CompileFailure:
  assumes "load_resume now k s = (Inl (CompileFailure reason), s')"
  shows "s_compiled k = Inl reason \<and> s' = s"
proof (cases "s_compiled k")
  case (Inl a)
  with assms show ?thesis by (simp add: load_resume_def)
next
  case (Inr js)
  with assms have False
    by (auto simp: load_resume_def mkdirSync_def writeFileSync_def Let_def
        split: sum.splits prod.splits option.splits node.splits if_splits
        dest: mkdirs_error load_finish_error)
  then show ?thesis ..
qed

lemma load_resume_compilerCalls:
  "compilerCalls (effects (snd (load_resume now k s))) = compilerCalls (effects s)"
  by (auto simp: load_resume_def mkdirSync_def writeFileSync_def load_finish_def readFileSync_def
      Let_def split: sum.splits prod.splits option.splits node.splits if_splits)

lemma writeFileSync_InrD:
  assumes "writeFileSync p d now s = (Inr u, s')"
  shows "p \<noteq> [] \<and> dirname p \<noteq> p \<and>
         s' = (perform (WriteFileSync p d) s)\<lparr>files := (files s)(p \<mapsto> File d now)\<rparr>"
  using assms
  by (auto simp: writeFileSync_def Let_def split: option.splits node.splits if_splits)

lemma writeFileSync_over_file:
  assumes "files s p = Some (File d0 m0)" and "dirname p \<noteq> p" and "p \<noteq> []"
    and "(\<exists>m. files s (dirname p) = Some (Directory m)) \<or>
         (files s (dirname p) = None \<and> dirname (dirname p) = dirname p)"
  shows "writeFileSync p d now s =
           (Inr (), (perform (WriteFileSync p d) s)\<lparr>files := (files s)(p \<mapsto> File d now)\<rparr>)"
  using assms by (auto simp: writeFileSync_def Let_def split: option.splits node.splits)

lemma mkdirSync_InrD:
  assumes "mkdirSync dir now s = (Inr u, s')"
  shows "\<exists>fs0. mkdirs now dir (files s) = Inr fs0 \<and>
           s' = (perform (MkdirSync dir) s)\<lparr>files := fs0\<rparr>"
  using assms by (auto simp: mkdirSync_def split: sum.splits)

lemma load_resume_InrD:
  assumes "load_resume now k s = (Inr r, s')"
  shows "\<exists>js fs0. s_compiled k = Inr js \<and> r = Value js \<and>
           mkdirs now (dirname (s_id k)) (files s) = Inr fs0 \<and>
           dirname (s_id k) \<noteq> s_id k \<and> s_id k \<noteq> [] \<and>
           files s' = fs0(s_id k \<mapsto> File js now) \<and>
           srcFileMap s' = (srcFileMap s)(s_srcFile k \<mapsto> (s_id k, s_mtimeMs k)) \<and>
           compiledFileMap s' = compiledFileMap s \<and>
           effects s' = effects s @ [MkdirSync (dirname (s_id k)), WriteFileSync (s_id k) js,
                                     ReadFileSync (s_id k)]"
proof -
  obtain js where js: "s_compiled k = Inr js"
    using assms by (cases "s_compiled k") (simp_all add: load_resume_def)
  obtain m s1 where m: "mkdirSync (dirname (s_id k)) now s = (m, s1)"
    by (cases "mkdirSync (dirname (s_id k)) now s")
  obtain u where mu: "m = Inr u"
    using assms js m by (cases m) (simp_all add: load_resume_def)
  obtain fs0 where fs0: "mkdirs now (dirname (s_id k)) (files s) = Inr fs0"
    and s1: "s1 = (perform (MkdirSync (dirname (s_id k))) s)\<lparr>files := fs0\<rparr>"
    using mkdirSync_InrD m mu by blast
  obtain w s2 where w: "writeFileSync (s_id k) js now s1 = (w, s2)"
    by (cases "writeFileSync (s_id k) js now s1")
  obtain u' where wu: "w = Inr u'"
    using assms js m mu w by (cases w) (simp_all add: load_resume_def)
  have d: "dirname (s_id k) \<noteq> s_id k" "s_id k \<noteq> []"
    and s2: "s2 = (perform (WriteFileSync (s_id k) js) s1)\<lparr>files := (files s1)(s_id k \<mapsto> File js now)\<rparr>"
    using writeFileSync_InrD w wu by blast+
  let ?s3 = "s2\<lparr>srcFileMap := (srcFileMap s2)(s_srcFile k \<mapsto> (s_id k, s_mtimeMs k))\<rparr>"
  have fin: "load_finish (s_id k) ?s3 = (Inr r, s')"
    using assms js m mu w wu by (simp add: load_resume_def)
  have f3: "files ?s3 (s_id k) = Some (File js now)" using s2 by simp
  from load_finish_File [OF f3] fin
  have r: "r = Value js"
    and s': "s' = perform (ReadFileSync (s_id k)) (log [''loading compiled cljs file'', s_id k] ?s3)"
    by simp_all
  show ?thesis using js fs0 d r s' s2 s1 by simp
qed

lemma load_resume_again:
  assumes "s_compiled k = Inr js"
    and "dirname (s_id k) \<noteq> s_id k" and "s_id k \<noteq> []"
    and "files s (s_id k) = Some (File js0 m0)"
    and "(\<exists>m. files s (dirname (s_id k)) = Some (Directory m)) \<or>
         (files s (dirname (s_id k)) = None \<and> dirname (dirname (s_id k)) = dirname (s_id k))"
  shows "\<exists>s'. load_resume now k s = (Inr (Value js), s') \<and>
           effects s' = effects s @ [MkdirSync (dirname (s_id k)), WriteFileSync (s_id k) js,
                                     ReadFileSync (s_id k)]"
proof -
  let ?d = "dirname (s_id k)"
  have mk: "mkdirs now ?d (files s) = Inr (files s)"
    using assms(5) by (auto intro: mkdirs_there)
  let ?s1 = "(perform (MkdirSync ?d) s)\<lparr>files := files s\<rparr>"
  have m: "mkdirSync ?d now s = (Inr (), ?s1)" using mk by (simp add: mkdirSync_def)
  let ?s2 = "(perform (WriteFileSync (s_id k) js) ?s1)\<lparr>files := (files ?s1)(s_id k \<mapsto> File js now)\<rparr>"
  have w: "writeFileSync (s_id k) js now ?s1 = (Inr (), ?s2)"
    by (rule writeFileSync_over_file [where ?d0.0 = js0 and ?m0.0 = m0])
       (use assms in simp_all)
  let ?s3 = "?s2\<lparr>srcFileMap := (srcFileMap ?s2)(s_srcFile k \<mapsto> (s_id k, s_mtimeMs k))\<rparr>"
  have f3: "files ?s3 (s_id k) = Some (File js now)" by simp
  have "load_resume now k s = load_finish (s_id k) ?s3"
    using assms(1) m w by (simp add: load_resume_def)
  then show ?thesis using load_finish_File [OF f3] by simp
qed

lemma warm_load_step:
  assumes reg2: "compiledFileMap s2 ident = Some src" and tr: "truthy src"
    and n2: "files s2 src = Some n2" and fresh: "\<not> modTimeOf s2 src < mtimeMs n2"
    and art: "files s2 ident = Some (File code m)"
  shows "load compileString now2 ident s2 =
           (Inr (Value code),
            perform (ReadFileSync ident)
              (log [''loading compiled cljs file'', ident] (perform (StatSync src) s2)))"
proof -
  have "files (perform (StatSync src) s2) ident = Some (File code m)" using art by simp
  from load_finish_File [OF this] load_start_freshI [OF reg2 tr n2 fresh, of compileString]
  show ?thesis by (simp add: load_def)
qed

text \<open>
  Claim C3: let a load of a registered id succeed, and let a second load of the same id
  start in a session where the record of the source file and the registration of the id
  are as the first load left them, the source file has the modification time the first
  load saw, and the artifact is as the first load left it. Then the second load does not
  call the compiler, writes nothing, and returns the content that is stored at the id,
  which is what the first load returned.
\<close>

theorem warm_load:
  assumes reg: "compiledFileMap s ident = Some src" and tr: "truthy src"
    and first: "load compileString now1 ident s = (Inr r, s1)"
    and rec: "srcFileMap s2 src = srcFileMap s1 src"
    and reg2: "compiledFileMap s2 ident = Some src"
    and mt: "map_option mtimeMs (files s2 src) = map_option mtimeMs (files s src)"
    and art: "files s2 ident = files s1 ident"
  shows "\<exists>code m. files s1 ident = Some (File code m) \<and> r = Value code \<and>
           fst (load compileString now2 ident s2) = Inr (Value code) \<and>
           effects (snd (load compileString now2 ident s2))
             = effects s2 @ [StatSync src, ReadFileSync ident] \<and>
           compilerCalls (effects (snd (load compileString now2 ident s2)))
             = compilerCalls (effects s2) \<and>
           files (snd (load compileString now2 ident s2)) = files s2 \<and>
           srcFileMap (snd (load compileString now2 ident s2)) = srcFileMap s2"
proof -
  obtain a s' where a: "load_start compileString ident s = (a, s')"
    by (cases "load_start compileString ident s")
  have "\<exists>code m n2. files s1 ident = Some (File code m) \<and> r = Value code \<and>
          files s2 src = Some n2 \<and> \<not> modTimeOf s2 src < mtimeMs n2"
  proof (cases a)
    case (Settled x)
    with a first have x: "x = Inr r" and s1: "s' = s1" by (simp_all add: load_def)
    from load_start_SettledD [OF a [unfolded Settled x] reg tr]
    obtain n where n: "files s src = Some n" and fresh: "\<not> modTimeOf s src < mtimeMs n"
      and fin: "load_finish ident (perform (StatSync src) s) = (Inr r, s')" by blast
    from load_finish_InrD [OF fin] obtain code m where
      c: "files s ident = Some (File code m)" "r = Value code"
      and s'': "s' = perform (ReadFileSync ident)
                  (log [''loading compiled cljs file'', ident] (perform (StatSync src) s))"
      by auto
    have f1: "files s1 = files s" and m1: "srcFileMap s1 = srcFileMap s"
      using s1 s'' by auto
    obtain n2 where n2: "files s2 src = Some n2" and mn: "mtimeMs n2 = mtimeMs n"
      using mt n by (cases "files s2 src") auto
    have "modTimeOf s2 src = modTimeOf s src"
      by (rule modTimeOf_cong) (simp add: rec m1)
    then show ?thesis using c f1 n2 mn fresh by simp
  next
    case (Awaiting k)
    with a first have res: "load_resume now1 k s' = (Inr r, s1)" by (simp add: load_def)
    from load_start_AwaitingD [OF a [unfolded Awaiting]] reg
    obtain code0 m0 where src: "files s src = Some (File code0 m0)"
      and k: "k = Suspended ident src m0 (compileString code0 src)"
      by auto
    from load_resume_InrD [OF res] k obtain js fs0 where
      r: "r = Value js" and f1: "files s1 = fs0(ident \<mapsto> File js now1)"
      and m1: "srcFileMap s1 = (srcFileMap s')(src \<mapsto> (ident, m0))"
      by auto
    obtain n2 where n2: "files s2 src = Some n2" and mn: "mtimeMs n2 = m0"
      using mt src by (cases "files s2 src") auto
    have "modTimeOf s2 src = m0"
      by (rule modTimeOf_stored [where out = ident]) (simp add: rec m1)
    then show ?thesis using r f1 n2 mn by simp
  qed
  then obtain code m n2 where c: "files s1 ident = Some (File code m)" "r = Value code"
    and n2: "files s2 src = Some n2" and fresh: "\<not> modTimeOf s2 src < mtimeMs n2"
    by blast
  have art2: "files s2 ident = Some (File code m)" using art c by simp
  show ?thesis
    using c warm_load_step [OF reg2 tr n2 fresh art2, of compileString now2] by simp
qed

theorem warm_load_witness:
  "compiledFileMap resolvedSession ''/p/out/src/a.jsx'' = Some ''/p/src/a.cljs'' \<and>
   truthy ''/p/src/a.cljs'' \<and>
   load exampleCompiler 100 ''/p/out/src/a.jsx'' resolvedSession
     = (Inr (Value ''// /p/src/a.cljs''), loadedSession) \<and>
   compiledFileMap loadedSession ''/p/out/src/a.jsx'' = Some ''/p/src/a.cljs'' \<and>
   map_option mtimeMs (files loadedSession ''/p/src/a.cljs'')
     = map_option mtimeMs (files resolvedSession ''/p/src/a.cljs'') \<and>
   compilerCalls (effects loadedSession) = 1 \<and>
   fst (load exampleCompiler 200 ''/p/out/src/a.jsx'' loadedSession)
     = Inr (Value ''// /p/src/a.cljs'') \<and>
   compilerCalls (effects (snd (load exampleCompiler 200 ''/p/out/src/a.jsx'' loadedSession))) = 1"
proof -
  have h1: "compiledFileMap resolvedSession ''/p/out/src/a.jsx'' = Some ''/p/src/a.cljs''"
    by code_simp
  have h2: "truthy ''/p/src/a.cljs''" by code_simp
  have "fst (load exampleCompiler 100 ''/p/out/src/a.jsx'' resolvedSession)
          = Inr (Value ''// /p/src/a.cljs'')"
    by code_simp
  then have h3: "load exampleCompiler 100 ''/p/out/src/a.jsx'' resolvedSession
                   = (Inr (Value ''// /p/src/a.cljs''), loadedSession)"
    by (simp add: loadedSession_def prod_eq_iff)
  have h4: "srcFileMap loadedSession ''/p/src/a.cljs'' = srcFileMap loadedSession ''/p/src/a.cljs''"
    by simp
  have h5: "compiledFileMap loadedSession ''/p/out/src/a.jsx'' = Some ''/p/src/a.cljs''"
    by code_simp
  have h6: "map_option mtimeMs (files loadedSession ''/p/src/a.cljs'')
              = map_option mtimeMs (files resolvedSession ''/p/src/a.cljs'')"
    by code_simp
  have h7: "files loadedSession ''/p/out/src/a.jsx'' = files loadedSession ''/p/out/src/a.jsx''"
    by simp
  have h8: "compilerCalls (effects loadedSession) = 1" by code_simp
  show ?thesis
    using h1 h2 h3 h5 h6 h8 warm_load [OF h1 h2 h3 h4 h5 h6 h7, of 200]
    by auto
qed

text \<open>
  Claim C4: when a load fails because the compiler rejects, the files, both dictionaries
  and the number of writes are as before the load, the compiler has been called once, and
  the next load of the same id calls the compiler again (and fails in the same way, the
  source being unchanged).
\<close>

theorem compile_failure_leaves_state:
  assumes "load compileString now ident s = (Inl (CompileFailure reason), s1)"
  shows "files s1 = files s \<and> srcFileMap s1 = srcFileMap s \<and>
         compiledFileMap s1 = compiledFileMap s \<and>
         artifactWrites (effects s1) = artifactWrites (effects s) \<and>
         compilerCalls (effects s1) = compilerCalls (effects s) + 1 \<and>
         fst (load compileString now' ident s1) = Inl (CompileFailure reason) \<and>
         compilerCalls (effects (snd (load compileString now' ident s1)))
           = compilerCalls (effects s1) + 1"
proof -
  obtain a s' where a: "load_start compileString ident s = (a, s')"
    by (cases "load_start compileString ident s")
  show ?thesis
  proof (cases a)
    case (Settled x)
    with a assms have "load_start compileString ident s = (Settled (Inl (CompileFailure reason)), s1)"
      by (simp add: load_def)
    from load_start_Settled_error [OF this] show ?thesis by simp
  next
    case (Awaiting k)
    with a assms have res: "load_resume now k s' = (Inl (CompileFailure reason), s1)"
      by (simp add: load_def)
    from load_resume_CompileFailure [OF res]
    have rej: "s_compiled k = Inl reason" and s1: "s1 = s'" by simp_all
    from load_start_AwaitingD [OF a [unfolded Awaiting]]
    obtain src code m where reg: "compiledFileMap s ident = Some src" and tr: "truthy src"
      and f: "files s src = Some (File code m)" and stale: "modTimeOf s src < m"
      and k: "k = Suspended ident src m (compileString code src)"
      and s': "s' = perform (CompileString code src)
                  (perform (ReadFileSync src)
                     (log [''compiling cljs file'', src] (perform (StatSync src) s)))"
      by blast
    have frame: "files s1 = files s" "srcFileMap s1 = srcFileMap s"
      "compiledFileMap s1 = compiledFileMap s"
      "effects s1 = effects s @ [StatSync src, ReadFileSync src, CompileString code src]"
      using s1 s' by simp_all
    have stale1: "modTimeOf s1 src < m"
      using stale modTimeOf_cong [of s1 src s] frame by simp
    have reg1: "compiledFileMap s1 ident = Some src" and f1: "files s1 src = Some (File code m)"
      using frame reg f by simp_all
    have again: "load compileString now' ident s1 =
        (Inl (CompileFailure reason),
         perform (CompileString code src)
           (perform (ReadFileSync src)
              (log [''compiling cljs file'', src] (perform (StatSync src) s1))))"
      using load_start_AwaitingI [OF reg1 tr f1 stale1, of compileString] rej k
      by (simp add: load_def load_resume_rejected)
    show ?thesis using frame again by simp
  qed
qed

theorem compile_failure_leaves_state_witness:
  "load exampleCompiler 100 ''/p/out/src/bad.jsx'' badSession
     = (Inl (CompileFailure ''EOF while reading''),
        snd (load exampleCompiler 100 ''/p/out/src/bad.jsx'' badSession)) \<and>
   files (snd (load exampleCompiler 100 ''/p/out/src/bad.jsx'' badSession)) = files badSession \<and>
   srcFileMap (snd (load exampleCompiler 100 ''/p/out/src/bad.jsx'' badSession))
     = srcFileMap badSession \<and>
   fst (load exampleCompiler 200 ''/p/out/src/bad.jsx''
          (snd (load exampleCompiler 100 ''/p/out/src/bad.jsx'' badSession)))
     = Inl (CompileFailure ''EOF while reading'') \<and>
   compilerCalls (effects (snd (load exampleCompiler 200 ''/p/out/src/bad.jsx''
          (snd (load exampleCompiler 100 ''/p/out/src/bad.jsx'' badSession))))) = 2"
proof -
  have "fst (load exampleCompiler 100 ''/p/out/src/bad.jsx'' badSession)
          = Inl (CompileFailure ''EOF while reading'')"
    by code_simp
  then have h: "load exampleCompiler 100 ''/p/out/src/bad.jsx'' badSession
     = (Inl (CompileFailure ''EOF while reading''),
        snd (load exampleCompiler 100 ''/p/out/src/bad.jsx'' badSession))"
    by (simp add: prod_eq_iff)
  have e: "compilerCalls (effects badSession) = 0" by code_simp
  show ?thesis
    using h e compile_failure_leaves_state [OF h, of 200] by simp
qed

subsection \<open>Two loads at once\<close>

text \<open>
  Claim C8 says that two concurrent loads of a stale id call the compiler once and write
  the artifact once. The plugin keeps no table of loads in flight: the record of the
  source file is updated only after the \<^verbatim>\<open>await\<close> (line 99), so the second call
  still finds the source newer and calls the compiler as well. In the example the
  compiler is called twice and the artifact is written twice.
\<close>

theorem two_concurrent_loads_counterexample:
  "modTimeOf resolvedSession ''/p/src/a.cljs'' < 10 \<and>
   files resolvedSession ''/p/src/a.cljs'' = Some (File ''(ns a)'' 10) \<and>
   compilerCalls (effects resolvedSession) = 0 \<and>
   artifactWrites (effects resolvedSession) = 0 \<and>
   compilerCalls (effects (snd (concurrentLoads exampleCompiler 100 101 ''/p/out/src/a.jsx''
      resolvedSession))) = 2 \<and>
   artifactWrites (effects (snd (concurrentLoads exampleCompiler 100 101 ''/p/out/src/a.jsx''
      resolvedSession))) = 2 \<and>
   \<not> (compilerCalls (effects (snd (concurrentLoads exampleCompiler 100 101 ''/p/out/src/a.jsx''
      resolvedSession))) = 1 \<and>
      artifactWrites (effects (snd (concurrentLoads exampleCompiler 100 101 ''/p/out/src/a.jsx''
      resolvedSession))) = 1)"
  by code_simp

text \<open>
  Claim C8, amended: when two loads of an id are started before the compiler has answered
  either, and the first finds the source newer than its record, each of them calls the
  compiler, so the compiler is called twice; when the first caller's load succeeds, the
  second caller's load succeeds with the same content, and the artifact has been written
  twice.
\<close>

theorem two_concurrent_loads:
  assumes "load_start compileString ident s = (Awaiting k, s1)"
  shows "compilerCalls (effects (snd (concurrentLoads compileString nowA nowB ident s)))
           = compilerCalls (effects s) + 2 \<and>
         (\<forall>c. fst (fst (concurrentLoads compileString nowA nowB ident s)) = Inr c \<longrightarrow>
            snd (fst (concurrentLoads compileString nowA nowB ident s)) = Inr c \<and>
            artifactWrites (effects (snd (concurrentLoads compileString nowA nowB ident s)))
              = artifactWrites (effects s) + 2)"
proof -
  from load_start_AwaitingD [OF assms]
  obtain src code m where reg: "compiledFileMap s ident = Some src" and tr: "truthy src"
    and f: "files s src = Some (File code m)" and stale: "modTimeOf s src < m"
    and k: "k = Suspended ident src m (compileString code src)"
    and s1: "s1 = perform (CompileString code src)
                (perform (ReadFileSync src)
                   (log [''compiling cljs file'', src] (perform (StatSync src) s)))"
    by blast
  have stale1: "modTimeOf s1 src < m"
    using stale modTimeOf_cong [of s1 src s] s1 by simp
  have reg1: "compiledFileMap s1 ident = Some src" and f1: "files s1 src = Some (File code m)"
    using s1 reg f by simp_all
  define s2 where "s2 = perform (CompileString code src)
                (perform (ReadFileSync src)
                   (log [''compiling cljs file'', src] (perform (StatSync src) s1)))"
  have b: "load_start compileString ident s1 = (Awaiting k, s2)"
    using load_start_AwaitingI [OF reg1 tr f1 stale1, of compileString] k s2_def by simp
  obtain rA s3 where rA: "load_resume nowA k s2 = (rA, s3)" by (cases "load_resume nowA k s2")
  obtain rB s4 where rB: "load_resume nowB k s3 = (rB, s4)" by (cases "load_resume nowB k s3")
  have cl: "concurrentLoads compileString nowA nowB ident s = ((rA, rB), s4)"
    using assms b rA rB by (simp add: concurrentLoads_def)
  have e2: "effects s2 = effects s @ [StatSync src, ReadFileSync src, CompileString code src,
                                      StatSync src, ReadFileSync src, CompileString code src]"
    using s1 s2_def by simp
  have "compilerCalls (effects s4) = compilerCalls (effects s3)"
    using load_resume_compilerCalls [of nowB k s3] rB by simp
  also have "\<dots> = compilerCalls (effects s2)"
    using load_resume_compilerCalls [of nowA k s2] rA by simp
  finally have calls: "compilerCalls (effects s4) = compilerCalls (effects s) + 2"
    using e2 by simp
  have "rB = Inr c \<and> artifactWrites (effects s4) = artifactWrites (effects s) + 2"
    if ok: "rA = Inr c" for c
  proof -
    have id: "s_id k = ident" using k by simp
    from load_resume_InrD [OF rA [unfolded ok]] id obtain js fs0 where
      js: "s_compiled k = Inr js" and c: "c = Value js"
      and mk: "mkdirs nowA (dirname ident) (files s2) = Inr fs0"
      and d: "dirname ident \<noteq> ident" "ident \<noteq> []"
      and f3: "files s3 = fs0(ident \<mapsto> File js nowA)"
      and e3: "effects s3 = effects s2 @ [MkdirSync (dirname ident), WriteFileSync ident js,
                                          ReadFileSync ident]"
      by auto
    from mkdirs_result [OF mk]
    have "(\<exists>m. fs0 (dirname ident) = Some (Directory m)) \<or>
          (fs0 (dirname ident) = None \<and> dirname (dirname ident) = dirname ident)"
      by simp
    then have dir: "(\<exists>m. files s3 (dirname (s_id k)) = Some (Directory m)) \<or>
          (files s3 (dirname (s_id k)) = None \<and>
           dirname (dirname (s_id k)) = dirname (s_id k))"
      using f3 d id by simp
    have isfile: "files s3 (s_id k) = Some (File js nowA)" using f3 id by simp
    from load_resume_again [OF js _ _ isfile dir, of nowB] d id rB
    have "rB = Inr (Value js)"
      and "effects s4 = effects s3 @ [MkdirSync (dirname ident), WriteFileSync ident js,
                                      ReadFileSync ident]"
      by auto
    then show ?thesis using c e3 e2 by simp
  qed
  then show ?thesis using cl calls by simp
qed

theorem two_concurrent_loads_witness:
  "load_start exampleCompiler ''/p/out/src/a.jsx'' resolvedSession
     = (Awaiting (Suspended ''/p/out/src/a.jsx'' ''/p/src/a.cljs'' 10 (Inr ''// /p/src/a.cljs'')),
        snd (load_start exampleCompiler ''/p/out/src/a.jsx'' resolvedSession)) \<and>
   fst (fst (concurrentLoads exampleCompiler 100 101 ''/p/out/src/a.jsx'' resolvedSession))
     = Inr (Value ''// /p/src/a.cljs'') \<and>
   snd (fst (concurrentLoads exampleCompiler 100 101 ''/p/out/src/a.jsx'' resolvedSession))
     = Inr (Value ''// /p/src/a.cljs'') \<and>
   compilerCalls (effects (snd (concurrentLoads exampleCompiler 100 101 ''/p/out/src/a.jsx''
      resolvedSession))) = 2 \<and>
   artifactWrites (effects (snd (concurrentLoads exampleCompiler 100 101 ''/p/out/src/a.jsx''
      resolvedSession))) = 2"
proof -
  have "fst (load_start exampleCompiler ''/p/out/src/a.jsx'' resolvedSession)
          = Awaiting (Suspended ''/p/out/src/a.jsx'' ''/p/src/a.cljs'' 10 (Inr ''// /p/src/a.cljs''))"
    by code_simp
  then have h: "load_start exampleCompiler ''/p/out/src/a.jsx'' resolvedSession
     = (Awaiting (Suspended ''/p/out/src/a.jsx'' ''/p/src/a.cljs'' 10 (Inr ''// /p/src/a.cljs'')),
        snd (load_start exampleCompiler ''/p/out/src/a.jsx'' resolvedSession))"
    by (simp add: prod_eq_iff)
  have a: "fst (fst (concurrentLoads exampleCompiler 100 101 ''/p/out/src/a.jsx'' resolvedSession))
     = Inr (Value ''// /p/src/a.cljs'')"
    by code_simp
  have e: "compilerCalls (effects resolvedSession) = 0" "artifactWrites (effects resolvedSession) = 0"
    by code_simp+
  show ?thesis
    using h a e two_concurrent_loads [OF h, of 100 101] by simp
qed

section \<open>Hot updates\<close>

text \<open>
  Claim C7 says that for a changed file that is not in \<open>srcFileMap\<close> the hook returns
  the list of modules it was given. The function ends without a \<^verbatim>\<open>return\<close> on that
  path (line 121): it returns \<^verbatim>\<open>undefined\<close>, not the list.
\<close>

theorem handleHotUpdate_untracked_counterexample:
  "srcFileMap exampleSession ''/p/src/c.css'' = None \<and>
   fst (fst (handleHotUpdate ''/p/src/c.css'' exampleGraph [7] exampleSession)) \<noteq> Value [7]"
  by code_simp

text \<open>
  Claim C7, amended: for a changed file that is not in \<open>srcFileMap\<close> the hook returns
  \<^verbatim>\<open>undefined\<close>, and neither the module graph nor the session changes: the list of
  modules is left to the server.
\<close>

theorem handleHotUpdate_untracked:
  "srcFileMap s file = None \<Longrightarrow>
   handleHotUpdate file graph modules s = ((Undefined, graph), s)"
  by (simp add: handleHotUpdate_def)

theorem handleHotUpdate_untracked_witness:
  "srcFileMap exampleSession ''/p/src/c.css'' = None \<and>
   handleHotUpdate ''/p/src/c.css'' exampleGraph [7] exampleSession
     = ((Undefined, exampleGraph), exampleSession)"
proof -
  have h: "srcFileMap exampleSession ''/p/src/c.css'' = None" by code_simp
  show ?thesis using h handleHotUpdate_untracked [OF h] by simp
qed

end
